theory Spec2Isabelle
  imports Main
begin

section \<open>Data model\<close>

text \<open>
  The reducer of the application state (\<^verbatim>\<open>appReducer\<close>) and the checklist catalog
  accessors (\<^verbatim>\<open>getStepById\<close>, \<^verbatim>\<open>createMilestoneFromStep\<close>) are embedded as HOL
  functions. The reducer is a pure transition function apart from three ambient reads:
  the clock (\<^verbatim>\<open>new Date()\<close>, \<^verbatim>\<open>Date.now()\<close>), the id generator (\<^verbatim>\<open>generateId()\<close>) and
  the current user held in the state. The first two are passed in as an environment.

  The entity types \<^verbatim>\<open>Rep\<close>, \<^verbatim>\<open>AppUser\<close>, \<^verbatim>\<open>AuditLog\<close> and \<^verbatim>\<open>FieldTrainer\<close> are declared in
  \<^verbatim>\<open>@shared/schema\<close>, whose source is not part of this development. Each is modelled by
  the fields the reducer reads or writes, plus a finite map \<open>string \<rightharpoonup> 'v\<close> for the remaining
  (domain) fields, which the reducer only copies or merges by object spread.
\<close>

type_synonym timestamp = int
  \<comment> \<open>an instant, in milliseconds; stands for the \<^verbatim>\<open>Date\<close> and for its ISO rendering\<close>

record subtask =
  taskId :: string
  description :: string
  t_completed :: bool
  t_completedAt :: "timestamp option"
  t_completedBy :: "string option"

text \<open>
  \<open>subTasks = None\<close> is a milestone whose \<^verbatim>\<open>subTasks\<close> property is missing (the reducer
  tests \<^verbatim>\<open>!milestone.subTasks\<close>); \<open>milestones = None\<close> is a rep whose \<^verbatim>\<open>milestones\<close>
  property is not an array (the reducer tests \<^verbatim>\<open>Array.isArray(rep.milestones)\<close>).
\<close>

record milestone =
  stepId :: int
  title :: string
  m_completed :: bool
  m_completedAt :: "timestamp option"
  m_completedBy :: "string option"
  subTasks :: "subtask list option"

record 'v rep =
  rep_id :: string
  stage :: int
  milestones :: "milestone list option"
  createdAt :: timestamp
  updatedAt :: timestamp
  rep_fields :: "string \<rightharpoonup> 'v"

text \<open>\<^verbatim>\<open>Omit<Rep, 'id' | 'createdAt' | 'updatedAt'>\<close>, the payload of \<^verbatim>\<open>ADD_REP\<close>.\<close>

record 'v rep_payload =
  p_stage :: int
  p_milestones :: "milestone list option"
  p_fields :: "string \<rightharpoonup> 'v"

text \<open>\<^verbatim>\<open>Partial<Rep>\<close>, the patch of \<^verbatim>\<open>UPDATE_REP\<close>: \<open>None\<close> is a property that is absent.\<close>

record 'v rep_updates =
  u_id :: "string option"
  u_stage :: "int option"
  u_milestones :: "milestone list option option"
  u_createdAt :: "timestamp option"
  u_updatedAt :: "timestamp option"
  u_fields :: "string \<rightharpoonup> 'v"

datatype role = Trainer | Admin

record 'v app_user =
  user_id :: string
  user_role :: "role option"
  user_fields :: "string \<rightharpoonup> 'v"

record 'v audit_log =
  log_id :: int
  log_timestamp :: timestamp
  log_fields :: "string \<rightharpoonup> 'v"

record ('v, 't) app_state =
  isAuthenticated :: bool
  currentUser :: "'v app_user option"
  userRole :: "role option"
  reps :: "'v rep list"
  trainers :: "'t list"
  auditLogs :: "'v audit_log list"
  selectedRep :: "'v rep option"

datatype 'v app_action =
    SIGN_IN "'v app_user"
  | SIGN_OUT
  | SET_ROLE role
  | ADD_REP "'v rep_payload"
  | UPDATE_REP string "'v rep_updates"
  | SELECT_REP "'v rep option"
  | UPDATE_SUBTASK string int string bool
  | ADD_AUDIT_LOG "string \<rightharpoonup> 'v"

text \<open>
  The ambient inputs of one dispatch. The reducer runs synchronously, and every clock read
  of one dispatch is represented by the one instant \<open>now\<close>; \<open>generated_id\<close> is what
  \<^verbatim>\<open>generateId()\<close> returns (the function lives in \<^verbatim>\<open>@/lib/utils\<close>, whose source is not part
  of this development, and is taken as an input).
\<close>

record env =
  now :: timestamp
  generated_id :: string


section \<open>Template literals\<close>

text \<open>
  \<^verbatim>\<open>`Step ${stepId}`\<close> renders the number as JavaScript prints a number. For an integer of
  magnitude at most \<open>2\<^sup>5\<^sup>3 - 1 = 9007199254740991\<close> (\<^verbatim>\<open>Number.MAX_SAFE_INTEGER\<close>) that is its
  decimal digits, with a minus sign when it is negative: this is what \<open>number_to_string\<close>
  computes. Beyond that bound JavaScript prints the shortest digits that read back as the
  same double, and the exponent form from \<open>10\<^sup>2\<^sup>1\<close>, which \<open>number_to_string\<close> does not
  follow. Statements about the text of a placeholder title are therefore made for step ids
  within the bound only.
\<close>

definition digit_char :: "nat \<Rightarrow> char" where
  "digit_char d = ''0123456789'' ! d"

fun digits :: "nat \<Rightarrow> string" where
  "digits n = (if n < 10 then [digit_char n] else digits (n div 10) @ [digit_char (n mod 10)])"

declare digits.simps [simp del]

definition number_to_string :: "int \<Rightarrow> string" where
  "number_to_string n = (if n < 0 then CHR ''-'' # digits (nat (- n)) else digits (nat n))"


section \<open>The cascade of \<^verbatim>\<open>UPDATE_SUBTASK\<close>\<close>

text \<open>
  The source pushes the synthesized milestone and subtask onto the arrays it then maps
  over; the new state is built from the arrays those maps return. The functions
  \<open>ensureMilestone\<close> and \<open>ensureSubTask\<close> return the array as the following \<^verbatim>\<open>map\<close> sees it.
\<close>

definition placeholderSubTask :: "string \<Rightarrow> subtask" where
  "placeholderSubTask tid =
     \<lparr> taskId = tid, description = ''Task '' @ tid, t_completed = False,
       t_completedAt = None, t_completedBy = None \<rparr>"

definition placeholderMilestone :: "int \<Rightarrow> milestone" where
  "placeholderMilestone sid =
     \<lparr> stepId = sid, title = ''Step '' @ number_to_string sid, m_completed = False,
       m_completedAt = None, m_completedBy = None, subTasks = Some [] \<rparr>"

definition rep_milestones :: "'v rep \<Rightarrow> milestone list" where
  "rep_milestones r = (case milestones r of Some ms \<Rightarrow> ms | None \<Rightarrow> [])"

definition sub_tasks :: "milestone \<Rightarrow> subtask list" where
  "sub_tasks m = (case subTasks m of Some ts \<Rightarrow> ts | None \<Rightarrow> [])"

definition ensureMilestone :: "int \<Rightarrow> milestone list \<Rightarrow> milestone list" where
  "ensureMilestone sid ms =
     (case find (\<lambda>m. stepId m = sid) ms of
        None \<Rightarrow> ms @ [placeholderMilestone sid]
      | Some existingMilestone \<Rightarrow> ms)"

definition ensureSubTask :: "string \<Rightarrow> subtask list \<Rightarrow> subtask list" where
  "ensureSubTask tid ts =
     (case find (\<lambda>task. taskId task = tid) ts of
        None \<Rightarrow> ts @ [placeholderSubTask tid]
      | Some taskExists \<Rightarrow> ts)"

definition updateSubTask :: "timestamp \<Rightarrow> string option \<Rightarrow> string \<Rightarrow> bool \<Rightarrow> subtask \<Rightarrow> subtask" where
  "updateSubTask t uid tid c task =
     (if taskId task \<noteq> tid then task
      else task \<lparr> t_completed := c,
                  t_completedAt := (if c then Some t else None),
                  t_completedBy := (if c then uid else None) \<rparr>)"

definition updateMilestone ::
  "timestamp \<Rightarrow> string option \<Rightarrow> int \<Rightarrow> string \<Rightarrow> bool \<Rightarrow> milestone \<Rightarrow> milestone" where
  "updateMilestone t uid sid tid c m =
     (if stepId m \<noteq> sid then m
      else
        let updatedSubTasks = map (updateSubTask t uid tid c) (ensureSubTask tid (sub_tasks m));
            allSubTasksComplete = list_all t_completed updatedSubTasks
        in m \<lparr> m_completed := allSubTasksComplete,
               m_completedAt :=
                 (if allSubTasksComplete \<and> \<not> m_completed m then Some t else m_completedAt m),
               m_completedBy :=
                 (if allSubTasksComplete \<and> \<not> m_completed m then uid else m_completedBy m),
               subTasks := Some updatedSubTasks \<rparr>)"

definition updateRepSubTask ::
  "timestamp \<Rightarrow> string option \<Rightarrow> string \<Rightarrow> int \<Rightarrow> string \<Rightarrow> bool \<Rightarrow> 'v rep \<Rightarrow> 'v rep" where
  "updateRepSubTask t uid rid sid tid c r =
     (if rep_id r \<noteq> rid then r
      else
        let updatedMilestones =
              map (updateMilestone t uid sid tid c) (ensureMilestone sid (rep_milestones r));
            completedSteps = length (filter m_completed updatedMilestones);
            newStage = max (stage r) (int completedSteps + 1)
        in r \<lparr> milestones := Some updatedMilestones, stage := newStage, updatedAt := t \<rparr>)"


section \<open>The merge of \<^verbatim>\<open>UPDATE_REP\<close>\<close>

text \<open>\<^verbatim>\<open>{ ...rep, ...updates, updatedAt: new Date() }\<close>\<close>

definition mergeRep :: "timestamp \<Rightarrow> 'v rep_updates \<Rightarrow> 'v rep \<Rightarrow> 'v rep" where
  "mergeRep t u r =
     \<lparr> rep_id = (case u_id u of Some v \<Rightarrow> v | None \<Rightarrow> rep_id r),
       stage = (case u_stage u of Some v \<Rightarrow> v | None \<Rightarrow> stage r),
       milestones = (case u_milestones u of Some v \<Rightarrow> v | None \<Rightarrow> milestones r),
       createdAt = (case u_createdAt u of Some v \<Rightarrow> v | None \<Rightarrow> createdAt r),
       updatedAt = t,
       rep_fields = rep_fields r ++ u_fields u \<rparr>"


section \<open>The reducer\<close>

text \<open>
  One equation per \<^verbatim>\<open>case\<close> of the \<^verbatim>\<open>switch\<close>. The \<^verbatim>\<open>default\<close> branch returns the
  state as it is; no value of the action type reaches it.
\<close>

fun appReducer :: "env \<Rightarrow> ('v, 't) app_state \<Rightarrow> 'v app_action \<Rightarrow> ('v, 't) app_state" where
  "appReducer e s (SIGN_IN u) = s \<lparr> isAuthenticated := True, currentUser := Some u \<rparr>"
| "appReducer e s SIGN_OUT =
     s \<lparr> isAuthenticated := False, currentUser := None, userRole := None \<rparr>"
| "appReducer e s (SET_ROLE ro) =
     s \<lparr> userRole := Some ro,
         currentUser := (case currentUser s of
                           Some u \<Rightarrow> Some (u \<lparr> user_role := Some ro \<rparr>)
                         | None \<Rightarrow> None) \<rparr>"
| "appReducer e s (ADD_REP p) =
     (let newRep = \<lparr> rep_id = generated_id e, stage = p_stage p, milestones = p_milestones p,
                     createdAt = now e, updatedAt = now e, rep_fields = p_fields p \<rparr>
      in s \<lparr> reps := reps s @ [newRep] \<rparr>)"
| "appReducer e s (UPDATE_REP i u) =
     s \<lparr> reps := map (\<lambda>r. if rep_id r = i then mergeRep (now e) u r else r) (reps s),
         selectedRep := (case selectedRep s of
                           None \<Rightarrow> None
                         | Some sel \<Rightarrow>
                             if rep_id sel = i then Some (mergeRep (now e) u sel) else Some sel) \<rparr>"
| "appReducer e s (SELECT_REP r) = s \<lparr> selectedRep := r \<rparr>"
| "appReducer e s (UPDATE_SUBTASK repId sid tid c) =
     (let updatedReps =
            map (updateRepSubTask (now e) (map_option user_id (currentUser s)) repId sid tid c)
              (reps s)
      in s \<lparr> reps := updatedReps,
             selectedRep := (case selectedRep s of
                               None \<Rightarrow> None
                             | Some sel \<Rightarrow>
                                 if rep_id sel = repId
                                 then find (\<lambda>r. rep_id r = repId) updatedReps
                                 else Some sel) \<rparr>)"
| "appReducer e s (ADD_AUDIT_LOG p) =
     (let newLog = \<lparr> log_id = now e, log_timestamp = now e, log_fields = p \<rparr>
      in s \<lparr> auditLogs := newLog # auditLogs s \<rparr>)"

declare appReducer.simps [simp del]

text \<open>A run of dispatches, each with its own ambient inputs.\<close>

definition dispatchAll ::
  "('v, 't) app_state \<Rightarrow> (env \<times> 'v app_action) list \<Rightarrow> ('v, 't) app_state" where
  "dispatchAll s ds = foldl (\<lambda>st (e, a). appReducer e st a) s ds"

fun isUpdateSubTask :: "'v app_action \<Rightarrow> bool" where
  "isUpdateSubTask (UPDATE_SUBTASK repId sid tid c) = True"
| "isUpdateSubTask _ = False"


text \<open>The run that sets each of the given subtasks of one step of one rep to completed.\<close>

definition completeAll ::
  "string \<Rightarrow> int \<Rightarrow> (env \<times> string) list \<Rightarrow> (env \<times> 'v app_action) list" where
  "completeAll repId sid ets = map (\<lambda>(e, tid). (e, UPDATE_SUBTASK repId sid tid True)) ets"


section \<open>The checklist catalog\<close>

text \<open>
  \<^verbatim>\<open>checklistSteps\<close> is read from \<^verbatim>\<open>@/data/checklist-steps.json\<close>, a data file that is not
  part of this development: the accessors take the catalog as a parameter.
\<close>

record task_def =
  d_taskId :: string
  d_description :: string

record step_def =
  s_stepId :: int
  s_title :: string
  s_subTasks :: "task_def list"

definition getStepById :: "step_def list \<Rightarrow> int \<Rightarrow> step_def option" where
  "getStepById checklistSteps sid = find (\<lambda>step. s_stepId step = sid) checklistSteps"

definition createMilestoneFromStep :: "step_def list \<Rightarrow> int \<Rightarrow> milestone option" where
  "createMilestoneFromStep checklistSteps sid =
     (case getStepById checklistSteps sid of
        None \<Rightarrow> None
      | Some step \<Rightarrow>
          Some \<lparr> stepId = sid, title = s_title step, m_completed = False,
                 m_completedAt = None, m_completedBy = None,
                 subTasks = Some (map (\<lambda>task. \<lparr> taskId = d_taskId task,
                                                description = d_description task,
                                                t_completed = False,
                                                t_completedAt = None,
                                                t_completedBy = None \<rparr>)
                                   (s_subTasks step)) \<rparr>)"

section \<open>Concrete states\<close>

text \<open>
  The starting state of the examples: one rep \<open>r1\<close> at stage 1 with no milestones, and a
  signed-in trainer \<open>u1\<close>.
\<close>

definition ex_rep :: "unit rep" where
  "ex_rep = \<lparr> rep_id = ''r1'', stage = 1, milestones = Some [], createdAt = 0, updatedAt = 0,
              rep_fields = Map.empty \<rparr>"

definition ex_user :: "unit app_user" where
  "ex_user = \<lparr> user_id = ''u1'', user_role = Some Trainer, user_fields = Map.empty \<rparr>"

definition ex_state :: "(unit, unit) app_state" where
  "ex_state = \<lparr> isAuthenticated = True, currentUser = Some ex_user, userRole = Some Trainer,
                reps = [ex_rep], trainers = [], auditLogs = [], selectedRep = None \<rparr>"

definition ex_env :: env where
  "ex_env = \<lparr> now = 1000, generated_id = ''r2'' \<rparr>"

definition ex_env2 :: env where
  "ex_env2 = \<lparr> now = 2000, generated_id = ''r3'' \<rparr>"

definition ex_env3 :: env where
  "ex_env3 = \<lparr> now = 3000, generated_id = ''r4'' \<rparr>"

text \<open>
  The two toggles of the examples: subtask \<open>t1\<close> of step 1 is completed, then subtask
  \<open>t2\<close> of the same step is set to not completed.
\<close>

definition ex_toggles :: "(env \<times> unit app_action) list" where
  "ex_toggles = [(ex_env, UPDATE_SUBTASK ''r1'' 1 ''t1'' True),
                 (ex_env2, UPDATE_SUBTASK ''r1'' 1 ''t2'' False)]"

text \<open>Completing subtasks \<open>t1\<close> and \<open>t2\<close>, one after the other.\<close>

definition ex_complete_both :: "(env \<times> string) list" where
  "ex_complete_both = [(ex_env2, ''t1''), (ex_env3, ''t2'')]"

text \<open>A state whose selection is a rep that is not in the rep list.\<close>

definition ex_stale_state :: "(unit, unit) app_state" where
  "ex_stale_state = ex_state \<lparr> selectedRep := Some (ex_rep \<lparr> rep_id := ''gone'' \<rparr>) \<rparr>"

text \<open>
  A state in which step 1 of rep \<open>r1\<close> was completed at instant 500 by user \<open>u0\<close>.
\<close>

definition ex_done_rep :: "unit rep" where
  "ex_done_rep =
     \<lparr> rep_id = ''r1'', stage = 2,
       milestones = Some
         [\<lparr> stepId = 1, title = ''Orientation'', m_completed = True,
            m_completedAt = Some 500, m_completedBy = Some ''u0'',
            subTasks = Some [\<lparr> taskId = ''t1'', description = ''Meet the trainer'',
                               t_completed = True, t_completedAt = Some 500,
                               t_completedBy = Some ''u0'' \<rparr>] \<rparr>],
       createdAt = 0, updatedAt = 500, rep_fields = Map.empty \<rparr>"

definition ex_done_state :: "(unit, unit) app_state" where
  "ex_done_state = ex_state \<lparr> reps := [ex_done_rep] \<rparr>"

text \<open>A catalog of two steps.\<close>

definition ex_catalog :: "step_def list" where
  "ex_catalog =
     [\<lparr> s_stepId = 1, s_title = ''Orientation'',
        s_subTasks = [\<lparr> d_taskId = ''1-1'', d_description = ''Meet the trainer'' \<rparr>,
                      \<lparr> d_taskId = ''1-2'', d_description = ''Sign the forms'' \<rparr>] \<rparr>,
      \<lparr> s_stepId = 2, s_title = ''Shadowing'', s_subTasks = [] \<rparr>]"

text \<open>The payload of a new rep, and a patch that sets the stage to 5.\<close>

definition ex_payload :: "unit rep_payload" where
  "ex_payload = \<lparr> p_stage = 1, p_milestones = Some [], p_fields = Map.empty \<rparr>"

definition ex_patch :: "unit rep_updates" where
  "ex_patch = \<lparr> u_id = None, u_stage = Some 5, u_milestones = None, u_createdAt = None,
                u_updatedAt = None, u_fields = Map.empty \<rparr>"

text \<open>The payload of an audit log entry without further fields.\<close>

definition ex_log_payload :: "string \<rightharpoonup> unit" where
  "ex_log_payload = Map.empty"

lemmas ex_defs = ex_rep_def ex_user_def ex_state_def ex_env_def ex_env2_def

lemmas ex2_defs =
  ex_env3_def ex_done_rep_def ex_done_state_def ex_toggles_def dispatchAll_def
  ex_complete_both_def completeAll_def

lemmas cascade_defs =
  updateRepSubTask_def updateMilestone_def updateSubTask_def ensureMilestone_def
  ensureSubTask_def placeholderMilestone_def placeholderSubTask_def rep_milestones_def
  sub_tasks_def number_to_string_def digits.simps digit_char_def appReducer.simps

section \<open>Auxiliary facts\<close>

lemma find_None_set: "(find P xs = None) = (\<forall>x\<in>set xs. \<not> P x)"
  by (induction xs) auto

lemma find_Some_set: "find P xs = Some x \<Longrightarrow> x \<in> set xs \<and> P x"
  by (induction xs) (auto split: if_splits)

lemma map_unchanged: "(\<forall>x\<in>set xs. f x = x) \<Longrightarrow> map f xs = xs"
  by (induction xs) auto

lemma reps_update_subtask:
  "reps (appReducer e s (UPDATE_SUBTASK repId sid tid c)) =
     map (updateRepSubTask (now e) (map_option user_id (currentUser s)) repId sid tid c) (reps s)"
  by (simp add: appReducer.simps Let_def)

lemma currentUser_update_subtask:
  "currentUser (appReducer e s (UPDATE_SUBTASK repId sid tid c)) = currentUser s"
  by (simp add: appReducer.simps Let_def)

lemma rep_id_updateRepSubTask: "rep_id (updateRepSubTask t uid repId sid tid c r) = rep_id r"
  by (simp add: updateRepSubTask_def Let_def)

lemma stage_updateRepSubTask:
  "rep_id r = repId \<Longrightarrow>
   stage (updateRepSubTask t uid repId sid tid c r) =
     max (stage r)
       (1 + int (length (filter m_completed (rep_milestones (updateRepSubTask t uid repId sid tid c r)))))"
  by (simp add: updateRepSubTask_def Let_def rep_milestones_def)

lemma stage_updateRepSubTask_mono: "stage r \<le> stage (updateRepSubTask t uid repId sid tid c r)"
  by (simp add: updateRepSubTask_def Let_def)

lemma update_subtask_step:
  assumes "isUpdateSubTask a"
  shows "map rep_id (reps (appReducer e s a)) = map rep_id (reps s)"
    and "currentUser (appReducer e s a) = currentUser s"
    and "i < length (reps s) \<Longrightarrow> stage (reps s ! i) \<le> stage (reps (appReducer e s a) ! i)"
  using assms
  by (cases a; simp add: appReducer.simps Let_def rep_id_updateRepSubTask
        stage_updateRepSubTask_mono comp_def)+

lemma dispatchAll_Nil: "dispatchAll s [] = s"
  by (simp add: dispatchAll_def)

lemma dispatchAll_Cons: "dispatchAll s ((e, a) # ds) = dispatchAll (appReducer e s a) ds"
  by (simp add: dispatchAll_def)

lemma dispatchAll_subtasks:
  assumes "\<forall>d\<in>set ds. isUpdateSubTask (snd d)"
  shows "map rep_id (reps (dispatchAll s ds)) = map rep_id (reps s)
       \<and> currentUser (dispatchAll s ds) = currentUser s
       \<and> (\<forall>i<length (reps s). stage (reps s ! i) \<le> stage (reps (dispatchAll s ds) ! i))"
  using assms
proof (induction ds arbitrary: s)
  case Nil
  show ?case by (simp add: dispatchAll_Nil)
next
  case (Cons d ds)
  obtain e a where d: "d = (e, a)" by (cases d)
  from Cons.prems d have a: "isUpdateSubTask a" and rest: "\<forall>d\<in>set ds. isUpdateSubTask (snd d)"
    by simp_all
  let ?s1 = "appReducer e s a"
  note ih = Cons.IH [OF rest, of ?s1]
  have len: "length (reps ?s1) = length (reps s)"
    using update_subtask_step(1) [OF a, of e s] by (metis length_map)
  have ids: "map rep_id (reps (dispatchAll s (d # ds))) = map rep_id (reps s)"
    using ih update_subtask_step(1) [OF a, of e s] by (simp add: d dispatchAll_Cons)
  have usr: "currentUser (dispatchAll s (d # ds)) = currentUser s"
    using ih update_subtask_step(2) [OF a, of e s] by (simp add: d dispatchAll_Cons)
  have stg: "\<forall>i<length (reps s). stage (reps s ! i) \<le> stage (reps (dispatchAll s (d # ds)) ! i)"
  proof (intro allI impI)
    fix i assume i: "i < length (reps s)"
    have "stage (reps s ! i) \<le> stage (reps ?s1 ! i)"
      by (rule update_subtask_step(3) [OF a i])
    also have "\<dots> \<le> stage (reps (dispatchAll ?s1 ds) ! i)"
      using ih i len by simp
    finally show "stage (reps s ! i) \<le> stage (reps (dispatchAll s (d # ds)) ! i)"
      by (simp add: d dispatchAll_Cons)
  qed
  from ids usr stg show ?case by blast
qed

lemma updateRepSubTask_other: "rep_id r \<noteq> repId \<Longrightarrow> updateRepSubTask t uid repId sid tid c r = r"
  by (simp add: updateRepSubTask_def)

lemma reps_update_subtask_unknown:
  assumes "\<forall>r\<in>set (reps s). rep_id r \<noteq> repId"
  shows "reps (appReducer e s (UPDATE_SUBTASK repId sid tid c)) = reps s"
  unfolding reps_update_subtask
  by (rule map_unchanged) (simp add: assms updateRepSubTask_other)

lemma selectedRep_update_subtask:
  "selectedRep (appReducer e s (UPDATE_SUBTASK repId sid tid c)) =
     (case selectedRep s of
        None \<Rightarrow> None
      | Some sel \<Rightarrow>
          if rep_id sel = repId
          then find (\<lambda>r. rep_id r = repId) (reps (appReducer e s (UPDATE_SUBTASK repId sid tid c)))
          else Some sel)"
  unfolding reps_update_subtask by (simp add: appReducer.simps Let_def)

lemma auditLogs_other_actions:
  "auditLogs (appReducer e s a) =
     (case a of ADD_AUDIT_LOG p \<Rightarrow>
        \<lparr> log_id = now e, log_timestamp = now e, log_fields = p \<rparr> # auditLogs s
      | _ \<Rightarrow> auditLogs s)"
  by (cases a) (simp_all add: appReducer.simps Let_def)

lemma getStepById_None: "(getStepById cat sid = None) = (\<forall>st\<in>set cat. s_stepId st \<noteq> sid)"
  by (simp add: getStepById_def find_None_set)


subsection \<open>The cascade, level by level\<close>

lemma rep_at_update_subtask:
  "i < length (reps s) \<Longrightarrow>
   reps (appReducer e s (UPDATE_SUBTASK repId sid tid c)) ! i =
     updateRepSubTask (now e) (map_option user_id (currentUser s)) repId sid tid c (reps s ! i)"
  by (simp add: reps_update_subtask)

lemma rep_milestones_updateRepSubTask:
  "rep_id r = repId \<Longrightarrow>
   rep_milestones (updateRepSubTask t uid repId sid tid c r) =
     map (updateMilestone t uid sid tid c) (ensureMilestone sid (rep_milestones r))"
  by (simp add: updateRepSubTask_def Let_def rep_milestones_def)


lemma updateMilestone_other: "stepId m \<noteq> sid \<Longrightarrow> updateMilestone t uid sid tid c m = m"
  by (simp add: updateMilestone_def)



lemma stamps_updateMilestone:
  assumes "stepId m = sid"
  shows "m_completedAt (updateMilestone t uid sid tid c m) =
           (if m_completed (updateMilestone t uid sid tid c m) \<and> \<not> m_completed m
            then Some t else m_completedAt m)"
    and "m_completedBy (updateMilestone t uid sid tid c m) =
           (if m_completed (updateMilestone t uid sid tid c m) \<and> \<not> m_completed m
            then uid else m_completedBy m)"
  using assms by (simp_all add: updateMilestone_def Let_def)

lemma title_updateMilestone: "title (updateMilestone t uid sid tid c m) = title m"
  by (simp add: updateMilestone_def Let_def)




lemma ensureMilestone_cases:
  "ensureMilestone sid ms =
     (if \<exists>m\<in>set ms. stepId m = sid then ms else ms @ [placeholderMilestone sid])"
proof (cases "find (\<lambda>m. stepId m = sid) ms")
  case None
  then have "\<forall>m\<in>set ms. stepId m \<noteq> sid" by (simp add: find_None_set)
  with None show ?thesis by (simp add: ensureMilestone_def)
next
  case (Some m)
  then show ?thesis using find_Some_set [OF Some] by (auto simp: ensureMilestone_def)
qed




lemma ensureMilestone_nth: "j < length ms \<Longrightarrow> ensureMilestone sid ms ! j = ms ! j"
  by (simp add: ensureMilestone_cases nth_append)

lemma ensureMilestone_length: "length ms \<le> length (ensureMilestone sid ms)"
  by (simp add: ensureMilestone_cases)





subsection \<open>Synthesized milestones and subtasks\<close>

lemma updateMilestone_placeholder:
  "updateMilestone t uid sid tid c (placeholderMilestone sid) =
     \<lparr> stepId = sid, title = ''Step '' @ number_to_string sid, m_completed = c,
       m_completedAt = (if c then Some t else None),
       m_completedBy = (if c then uid else None),
       subTasks = Some [\<lparr> taskId = tid, description = ''Task '' @ tid, t_completed = c,
                          t_completedAt = (if c then Some t else None),
                          t_completedBy = (if c then uid else None) \<rparr>] \<rparr>"
  by (simp add: updateMilestone_def placeholderMilestone_def ensureSubTask_def sub_tasks_def
      updateSubTask_def placeholderSubTask_def Let_def)


lemma milestones_after_when_absent:
  assumes "rep_id r = repId"
    and "\<forall>m\<in>set (rep_milestones r). stepId m \<noteq> sid"
  shows "rep_milestones (updateRepSubTask t uid repId sid tid c r) =
           rep_milestones r @ [updateMilestone t uid sid tid c (placeholderMilestone sid)]"
proof -
  have "map (updateMilestone t uid sid tid c) (rep_milestones r) = rep_milestones r"
    by (rule map_unchanged) (simp add: assms(2) updateMilestone_other)
  with assms(2) show ?thesis
    by (simp add: rep_milestones_updateRepSubTask [OF assms(1)] ensureMilestone_cases)
qed

lemma milestone_after_at:
  assumes "rep_id r = repId"
    and "j < length (rep_milestones r)"
  shows "rep_milestones (updateRepSubTask t uid repId sid tid c r) ! j =
           updateMilestone t uid sid tid c (rep_milestones r ! j)"
proof -
  have "j < length (ensureMilestone sid (rep_milestones r))"
    using assms(2) ensureMilestone_length [of "rep_milestones r" sid] by simp
  then show ?thesis
    by (simp add: rep_milestones_updateRepSubTask [OF assms(1)] ensureMilestone_nth [OF assms(2)])
qed






subsection \<open>Adding, selecting and patching a rep\<close>

lemma reps_update_rep:
  "reps (appReducer e s (UPDATE_REP i u)) =
     map (\<lambda>r. if rep_id r = i then mergeRep (now e) u r else r) (reps s)"
  by (simp add: appReducer.simps)

lemma selectedRep_update_rep:
  "selectedRep (appReducer e s (UPDATE_REP i u)) =
     (case selectedRep s of
        None \<Rightarrow> None
      | Some sel \<Rightarrow> Some (if rep_id sel = i then mergeRep (now e) u sel else sel))"
  by (simp add: appReducer.simps split: option.split)

lemma update_rep_frame:
  "appReducer e s (UPDATE_REP i u) =
     s \<lparr> reps := reps (appReducer e s (UPDATE_REP i u)),
         selectedRep := selectedRep (appReducer e s (UPDATE_REP i u)) \<rparr>"
  by (simp add: appReducer.simps)

lemma reps_add_rep:
  "reps (appReducer e s (ADD_REP p)) =
     reps s @ [\<lparr> rep_id = generated_id e, stage = p_stage p, milestones = p_milestones p,
                 createdAt = now e, updatedAt = now e, rep_fields = p_fields p \<rparr>]"
  by (simp add: appReducer.simps Let_def)

lemma select_rep: "appReducer e s (SELECT_REP r) = s \<lparr> selectedRep := r \<rparr>"
  by (simp add: appReducer.simps)

lemma mergeRep_fields:
  "rep_id (mergeRep t u r) = (case u_id u of Some v \<Rightarrow> v | None \<Rightarrow> rep_id r)"
  "stage (mergeRep t u r) = (case u_stage u of Some v \<Rightarrow> v | None \<Rightarrow> stage r)"
  "milestones (mergeRep t u r) = (case u_milestones u of Some v \<Rightarrow> v | None \<Rightarrow> milestones r)"
  "createdAt (mergeRep t u r) = (case u_createdAt u of Some v \<Rightarrow> v | None \<Rightarrow> createdAt r)"
  "updatedAt (mergeRep t u r) = t"
  "rep_fields (mergeRep t u r) k = (case u_fields u k of Some v \<Rightarrow> Some v | None \<Rightarrow> rep_fields r k)"
  by (simp_all add: mergeRep_def map_add_def)


subsection \<open>Runs of completing toggles\<close>








section \<open>The completion cascade\<close>

text \<open>
  Claim C1. A dispatch of \<^verbatim>\<open>UPDATE_SUBTASK\<close> that targets a rep of the rep list (the rep at
  index \<open>i\<close> has the given id) leaves that rep with
  stage = max (previous stage, 1 + number of its milestones that are completed after the
  update). Consequently, over any run of \<^verbatim>\<open>UPDATE_SUBTASK\<close> dispatches the rep list keeps
  its length, the rep at index \<open>i\<close> keeps its id, and its stage does not decrease.
\<close>

theorem stage_max_and_monotone:
  assumes "i < length (reps s)"
    and "rep_id (reps s ! i) = repId"
    and "\<forall>d\<in>set ds. isUpdateSubTask (snd d)"
  shows "stage (reps (appReducer e s (UPDATE_SUBTASK repId sid tid c)) ! i) =
           max (stage (reps s ! i))
             (1 + int (length (filter m_completed
                (rep_milestones (reps (appReducer e s (UPDATE_SUBTASK repId sid tid c)) ! i)))))
       \<and> length (reps (dispatchAll s ds)) = length (reps s)
       \<and> rep_id (reps (dispatchAll s ds) ! i) = repId
       \<and> stage (reps s ! i) \<le> stage (reps (dispatchAll s ds) ! i)"
proof -
  have one: "reps (appReducer e s (UPDATE_SUBTASK repId sid tid c)) ! i =
      updateRepSubTask (now e) (map_option user_id (currentUser s)) repId sid tid c (reps s ! i)"
    using assms(1) by (simp add: reps_update_subtask)
  have stg: "stage (reps (appReducer e s (UPDATE_SUBTASK repId sid tid c)) ! i) =
           max (stage (reps s ! i))
             (1 + int (length (filter m_completed
                (rep_milestones (reps (appReducer e s (UPDATE_SUBTASK repId sid tid c)) ! i)))))"
    unfolding one by (rule stage_updateRepSubTask [OF assms(2)])
  note inv = dispatchAll_subtasks [OF assms(3), of s]
  from inv have ids: "map rep_id (reps (dispatchAll s ds)) = map rep_id (reps s)" by blast
  then have len: "length (reps (dispatchAll s ds)) = length (reps s)"
    by (metis length_map)
  have "rep_id (reps (dispatchAll s ds) ! i) = map rep_id (reps (dispatchAll s ds)) ! i"
    using assms(1) len by simp
  also have "\<dots> = repId"
    using assms(1,2) by (simp add: ids)
  finally have same: "rep_id (reps (dispatchAll s ds) ! i) = repId" .
  from inv assms(1) have mono: "stage (reps s ! i) \<le> stage (reps (dispatchAll s ds) ! i)"
    by blast
  from stg len same mono show ?thesis by blast
qed

theorem stage_max_and_monotone_witness:
  "0 < length (reps ex_state) \<and> rep_id (reps ex_state ! 0) = ''r1''
   \<and> list_all (\<lambda>d. isUpdateSubTask (snd d)) ex_toggles
   \<and> stage (reps (appReducer ex_env ex_state (UPDATE_SUBTASK ''r1'' 1 ''t1'' True)) ! 0) = 2
   \<and> stage (reps (dispatchAll ex_state ex_toggles) ! 0) = 2"
proof -
  have h1: "0 < length (reps ex_state)" by (simp add: ex_defs)
  have h2: "rep_id (reps ex_state ! 0) = ''r1''" by (simp add: ex_defs)
  have h3: "\<forall>d\<in>set ex_toggles. isUpdateSubTask (snd d)" by (simp add: ex_toggles_def)
  have v1: "stage (reps (appReducer ex_env ex_state (UPDATE_SUBTASK ''r1'' 1 ''t1'' True)) ! 0) = 2"
    by (simp add: ex_defs cascade_defs Let_def)
  have v2: "stage (reps (dispatchAll ex_state ex_toggles) ! 0) = 2"
    by (simp add: ex_toggles_def dispatchAll_def ex_defs cascade_defs Let_def)
  show ?thesis
    using h1 h2 h3 v1 v2 stage_max_and_monotone [OF h1 h2 h3, of ex_env 1 "''t1''" True]
    by (simp add: list_all_iff)
qed







text \<open>
  Claim C5. For an \<^verbatim>\<open>UPDATE_SUBTASK\<close> dispatch that targets a rep of the rep list and a
  milestone with the step id: when the milestone was not completed before the dispatch and
  is completed after it, its \<open>completedAt\<close> is the instant of the dispatch and its
  \<open>completedBy\<close> the id of the current user; when it was completed before the dispatch, both
  stamps are what they were (so also when it remains completed and the stamps of the
  toggled subtask change). A milestone synthesized by the dispatch counts as not completed
  before it.
\<close>

theorem milestone_stamped_on_transition_only:
  assumes "i < length (reps s)"
    and "rep_id (reps s ! i) = repId"
  shows "let r = reps s ! i;
             r' = reps (appReducer e s (UPDATE_SUBTASK repId sid tid c)) ! i;
             uid = map_option user_id (currentUser s)
         in
           (\<forall>j<length (rep_milestones r). stepId (rep_milestones r ! j) = sid \<longrightarrow>
              (let m = rep_milestones r ! j; m' = rep_milestones r' ! j in
                 (\<not> m_completed m \<and> m_completed m' \<longrightarrow>
                    m_completedAt m' = Some (now e) \<and> m_completedBy m' = uid)
               \<and> (m_completed m \<longrightarrow>
                    m_completedAt m' = m_completedAt m \<and> m_completedBy m' = m_completedBy m)))
         \<and> ((\<forall>m\<in>set (rep_milestones r). stepId m \<noteq> sid) \<longrightarrow>
              (let m' = last (rep_milestones r') in
                 stepId m' = sid
               \<and> (m_completed m' \<longrightarrow>
                    m_completedAt m' = Some (now e) \<and> m_completedBy m' = uid)))"
proof -
  let ?r = "reps s ! i"
  let ?uid = "map_option user_id (currentUser s)"
  let ?r' = "updateRepSubTask (now e) ?uid repId sid tid c ?r"
  let ?ms = "rep_milestones ?r"
  have old: "(\<not> m_completed (?ms ! j) \<and> m_completed (rep_milestones ?r' ! j) \<longrightarrow>
                m_completedAt (rep_milestones ?r' ! j) = Some (now e)
              \<and> m_completedBy (rep_milestones ?r' ! j) = ?uid)
           \<and> (m_completed (?ms ! j) \<longrightarrow>
                m_completedAt (rep_milestones ?r' ! j) = m_completedAt (?ms ! j)
              \<and> m_completedBy (rep_milestones ?r' ! j) = m_completedBy (?ms ! j))"
    if "j < length ?ms" "stepId (?ms ! j) = sid" for j
    unfolding milestone_after_at [OF assms(2) that(1)]
    by (simp add: stamps_updateMilestone [OF that(2)])
  have new: "stepId (last (rep_milestones ?r')) = sid
           \<and> (m_completed (last (rep_milestones ?r')) \<longrightarrow>
                m_completedAt (last (rep_milestones ?r')) = Some (now e)
              \<and> m_completedBy (last (rep_milestones ?r')) = ?uid)"
    if "\<forall>m\<in>set ?ms. stepId m \<noteq> sid"
    unfolding milestones_after_when_absent [OF assms(2) that]
    by (simp add: updateMilestone_placeholder)
  from old new show ?thesis
    unfolding Let_def rep_at_update_subtask [OF assms(1)] by blast
qed

theorem milestone_stamped_on_transition_only_witness:
  "0 < length (reps ex_done_state) \<and> rep_id (reps ex_done_state ! 0) = ''r1''
   \<and> map (\<lambda>m. (m_completed m, m_completedAt m, m_completedBy m,
              map (\<lambda>x. (taskId x, t_completedAt x, t_completedBy x)) (sub_tasks m)))
       (rep_milestones (reps (appReducer ex_env ex_done_state
          (UPDATE_SUBTASK ''r1'' 1 ''t1'' True)) ! 0))
     = [(True, Some 500, Some ''u0'', [(''t1'', Some 1000, Some ''u1'')])]
   \<and> 0 < length (reps (dispatchAll ex_state ex_toggles))
   \<and> rep_id (reps (dispatchAll ex_state ex_toggles) ! 0) = ''r1''
   \<and> map (\<lambda>m. (m_completed m, m_completedAt m, m_completedBy m))
       (rep_milestones (reps (dispatchAll ex_state ex_toggles) ! 0))
     = [(False, Some 1000, Some ''u1'')]
   \<and> map (\<lambda>m. (m_completed m, m_completedAt m, m_completedBy m))
       (rep_milestones (reps (appReducer ex_env3 (dispatchAll ex_state ex_toggles)
          (UPDATE_SUBTASK ''r1'' 1 ''t2'' True)) ! 0))
     = [(True, Some 3000, Some ''u1'')]"
proof -
  have h1: "0 < length (reps ex_done_state)" by (simp add: ex_defs ex2_defs)
  have h2: "rep_id (reps ex_done_state ! 0) = ''r1''" by (simp add: ex_defs ex2_defs)
  have h3: "0 < length (reps (dispatchAll ex_state ex_toggles))"
    by (simp add: ex_defs ex2_defs cascade_defs Let_def)
  have h4: "rep_id (reps (dispatchAll ex_state ex_toggles) ! 0) = ''r1''"
    by (simp add: ex_defs ex2_defs cascade_defs Let_def)
  show ?thesis
    using h1 h2 h3 h4
      milestone_stamped_on_transition_only [OF h1 h2, of ex_env 1 "''t1''" True]
      milestone_stamped_on_transition_only [OF h3 h4, of ex_env3 1 "''t2''" True]
    by (simp add: ex_defs ex2_defs cascade_defs Let_def)
qed

section \<open>Patching a rep\<close>

text \<open>
  Claim C7, as stated, says that an \<^verbatim>\<open>UPDATE_REP\<close> dispatch whose id matches no rep of the rep
  list leaves the state unchanged. The reducer merges the patch into the selection on its
  own test (\<^verbatim>\<open>state.selectedRep?.id === action.payload.id\<close>), and \<^verbatim>\<open>SELECT_REP\<close> accepts a rep
  that is not in the list: below, the rep list holds \<open>r1\<close> only, the selection has id
  \<open>gone\<close>, and the dispatch changes the state (the selection moves from stage 1 to
  stage 5).
\<close>

theorem update_rep_no_match_counterexample:
  "map rep_id (reps ex_stale_state) = [''r1'']
   \<and> map_option rep_id (selectedRep ex_stale_state) = Some ''gone''
   \<and> appReducer ex_env ex_stale_state (UPDATE_REP ''gone'' ex_patch) \<noteq> ex_stale_state
   \<and> map_option stage (selectedRep ex_stale_state) = Some 1
   \<and> map_option stage (selectedRep (appReducer ex_env ex_stale_state (UPDATE_REP ''gone'' ex_patch)))
       = Some 5"
proof -
  have sel: "map_option stage
      (selectedRep (appReducer ex_env ex_stale_state (UPDATE_REP ''gone'' ex_patch))) = Some 5"
    by (simp add: appReducer.simps ex_stale_state_def ex_defs ex_patch_def mergeRep_def)
  have old: "map_option stage (selectedRep ex_stale_state) = Some 1"
    by (simp add: ex_stale_state_def ex_defs)
  from sel old have "appReducer ex_env ex_stale_state (UPDATE_REP ''gone'' ex_patch) \<noteq> ex_stale_state"
    by auto
  with sel old show ?thesis
    by (simp add: ex_stale_state_def ex_defs)
qed

text \<open>
  Claim C7, amended. An \<^verbatim>\<open>UPDATE_REP\<close> dispatch (id, patch) merges the patch into every rep of
  the rep list with that id and sets its \<open>updatedAt\<close> to the instant of the dispatch; the
  same merge is applied to the selected rep whenever it has that id, in the list or not;
  nothing else of the state changes. When no rep of the list has the id, the rep list is
  unchanged, and the whole state is unchanged when the selection does not have the id
  either. The merge gives each property of the patch its patched value, keeps every other
  property, and refreshes \<open>updatedAt\<close>. After \<^verbatim>\<open>ADD_REP\<close>, \<^verbatim>\<open>SELECT_REP\<close> of the new record and
  \<^verbatim>\<open>UPDATE_REP\<close> with its id, the selection and the entry of the new rep in the list are
  both the merge of the new record with the patch (their \<open>updatedAt\<close> are two clock reads
  of the one dispatch, which the model represents by one instant).
\<close>

theorem update_rep_merges_list_and_selection:
  "let s' = appReducer e s (UPDATE_REP i u);
       merge = mergeRep (now e) u
   in
     reps s' = map (\<lambda>r. if rep_id r = i then merge r else r) (reps s)
   \<and> selectedRep s' =
       (case selectedRep s of
          None \<Rightarrow> None
        | Some sel \<Rightarrow> Some (if rep_id sel = i then merge sel else sel))
   \<and> s' = s \<lparr> reps := reps s', selectedRep := selectedRep s' \<rparr>
   \<and> ((\<forall>r\<in>set (reps s). rep_id r \<noteq> i) \<longrightarrow> reps s' = reps s)
   \<and> ((\<forall>r\<in>set (reps s). rep_id r \<noteq> i) \<and> map_option rep_id (selectedRep s) \<noteq> Some i
        \<longrightarrow> s' = s)
   \<and> (\<forall>r. updatedAt (merge r) = now e
          \<and> rep_id (merge r) = (case u_id u of Some v \<Rightarrow> v | None \<Rightarrow> rep_id r)
          \<and> stage (merge r) = (case u_stage u of Some v \<Rightarrow> v | None \<Rightarrow> stage r)
          \<and> milestones (merge r) = (case u_milestones u of Some v \<Rightarrow> v | None \<Rightarrow> milestones r)
          \<and> createdAt (merge r) = (case u_createdAt u of Some v \<Rightarrow> v | None \<Rightarrow> createdAt r)
          \<and> (\<forall>k. rep_fields (merge r) k =
                    (case u_fields u k of Some v \<Rightarrow> Some v | None \<Rightarrow> rep_fields r k)))
   \<and> (let s1 = appReducer e1 s (ADD_REP p);
           newRep = last (reps s1);
           s2 = appReducer e2 s1 (SELECT_REP (Some newRep));
           s3 = appReducer e s2 (UPDATE_REP (rep_id newRep) u)
       in rep_id newRep = generated_id e1
        \<and> selectedRep s3 = Some (merge newRep)
        \<and> last (reps s3) = merge newRep)"
proof -
  let ?s' = "appReducer e s (UPDATE_REP i u)"
  let ?merge = "mergeRep (now e) u"
  let ?f = "\<lambda>r. if rep_id r = i then ?merge r else r"
  have a: "reps ?s' = map ?f (reps s)"
    by (rule reps_update_rep)
  have b: "selectedRep ?s' =
       (case selectedRep s of None \<Rightarrow> None
        | Some sel \<Rightarrow> Some (if rep_id sel = i then ?merge sel else sel))"
    by (rule selectedRep_update_rep)
  have c: "?s' = s \<lparr> reps := reps ?s', selectedRep := selectedRep ?s' \<rparr>"
    by (rule update_rep_frame)
  have d: "reps ?s' = reps s" if "\<forall>r\<in>set (reps s). rep_id r \<noteq> i"
    unfolding a by (rule map_unchanged) (simp add: that)
  have e: "?s' = s"
    if "(\<forall>r\<in>set (reps s). rep_id r \<noteq> i) \<and> map_option rep_id (selectedRep s) \<noteq> Some i"
  proof -
    from that have "reps ?s' = reps s" by (simp add: d)
    moreover from that have "selectedRep ?s' = selectedRep s"
      unfolding b by (cases "selectedRep s") auto
    ultimately have "?s' = s \<lparr> reps := reps s, selectedRep := selectedRep s \<rparr>"
      using c by simp
    then show ?thesis by simp
  qed
  have f: "updatedAt (?merge r) = now e
          \<and> rep_id (?merge r) = (case u_id u of Some v \<Rightarrow> v | None \<Rightarrow> rep_id r)
          \<and> stage (?merge r) = (case u_stage u of Some v \<Rightarrow> v | None \<Rightarrow> stage r)
          \<and> milestones (?merge r) = (case u_milestones u of Some v \<Rightarrow> v | None \<Rightarrow> milestones r)
          \<and> createdAt (?merge r) = (case u_createdAt u of Some v \<Rightarrow> v | None \<Rightarrow> createdAt r)
          \<and> (\<forall>k. rep_fields (?merge r) k =
                    (case u_fields u k of Some v \<Rightarrow> Some v | None \<Rightarrow> rep_fields r k))" for r
    by (simp add: mergeRep_fields)
  let ?s1 = "appReducer e1 s (ADD_REP p)"
  let ?new = "last (reps ?s1)"
  let ?s2 = "appReducer e2 ?s1 (SELECT_REP (Some ?new))"
  let ?s3 = "appReducer e ?s2 (UPDATE_REP (rep_id ?new) u)"
  have new: "?new = \<lparr> rep_id = generated_id e1, stage = p_stage p, milestones = p_milestones p,
                       createdAt = now e1, updatedAt = now e1, rep_fields = p_fields p \<rparr>"
    by (simp add: reps_add_rep)
  have g1: "rep_id ?new = generated_id e1"
    by (simp add: new)
  have s2: "reps ?s2 = reps ?s1" "selectedRep ?s2 = Some ?new"
    by (simp_all add: select_rep)
  have ne: "reps ?s1 \<noteq> []"
    by (simp add: reps_add_rep)
  have g2: "selectedRep ?s3 = Some (?merge ?new)"
    by (simp add: selectedRep_update_rep s2)
  have g3: "last (reps ?s3) = ?merge ?new"
    using ne by (simp add: reps_update_rep s2 last_map)
  from a b c d e f g1 g2 g3 show ?thesis
    unfolding Let_def by blast
qed

theorem update_rep_merges_list_and_selection_witness:
  "map rep_id (reps ex_state) = [''r1'']
   \<and> reps (appReducer ex_env ex_state (UPDATE_REP ''r9'' ex_patch)) = [ex_rep]
   \<and> appReducer ex_env ex_state (UPDATE_REP ''r9'' ex_patch) = ex_state
   \<and> map (\<lambda>r. (rep_id r, stage r, updatedAt r))
       (reps (appReducer ex_env ex_state (UPDATE_REP ''r1'' ex_patch))) = [(''r1'', 5, 1000)]
   \<and> map (\<lambda>r. (rep_id r, stage r, updatedAt r))
       (reps (appReducer ex_env3
          (appReducer ex_env2 (appReducer ex_env ex_state (ADD_REP ex_payload))
             (SELECT_REP (Some (last (reps (appReducer ex_env ex_state (ADD_REP ex_payload)))))))
          (UPDATE_REP ''r2'' ex_patch)))
     = [(''r1'', 1, 0), (''r2'', 5, 3000)]
   \<and> map_option (\<lambda>r. (rep_id r, stage r, updatedAt r))
       (selectedRep (appReducer ex_env3
          (appReducer ex_env2 (appReducer ex_env ex_state (ADD_REP ex_payload))
             (SELECT_REP (Some (last (reps (appReducer ex_env ex_state (ADD_REP ex_payload)))))))
          (UPDATE_REP ''r2'' ex_patch)))
     = Some (''r2'', 5, 3000)"
proof -
  have h: "\<forall>r\<in>set (reps ex_state). rep_id r \<noteq> ''r9''" by (simp add: ex_defs)
  have h': "map_option rep_id (selectedRep ex_state) \<noteq> Some ''r9''" by (simp add: ex_defs)
  have noop: "appReducer ex_env ex_state (UPDATE_REP ''r9'' ex_patch) = ex_state"
    using h h' update_rep_merges_list_and_selection [of ex_env ex_state "''r9''" ex_patch]
    unfolding Let_def by blast
  show ?thesis
    using noop
    by (simp add: appReducer.simps ex_defs ex_env3_def ex_patch_def ex_payload_def mergeRep_def Let_def)
qed

section \<open>Dispatches that target no rep of the list\<close>

text \<open>
  Claim C6. When no rep of the rep list has the id of an \<^verbatim>\<open>UPDATE_SUBTASK\<close> dispatch, the
  reducer returns a state (it has no failing branch) whose rep list equals the rep list
  before the dispatch.
\<close>

theorem update_subtask_unknown_rep:
  assumes "\<forall>r\<in>set (reps s). rep_id r \<noteq> repId"
  shows "reps (appReducer e s (UPDATE_SUBTASK repId sid tid c)) = reps s"
  using assms by (rule reps_update_subtask_unknown)

theorem update_subtask_unknown_rep_witness:
  "list_all (\<lambda>r. rep_id r \<noteq> ''r9'') (reps ex_state)
   \<and> reps (appReducer ex_env ex_state (UPDATE_SUBTASK ''r9'' 1 ''t1'' True)) = [ex_rep]"
proof -
  have h: "\<forall>r\<in>set (reps ex_state). rep_id r \<noteq> ''r9''" by (simp add: ex_defs)
  show ?thesis
    using h update_subtask_unknown_rep [OF h, of ex_env 1 "''t1''" True]
    by (simp add: list_all_iff ex_state_def)
qed

text \<open>
  Claim C10. When the selected rep has the id of an \<^verbatim>\<open>UPDATE_SUBTASK\<close> dispatch and no rep
  of the rep list has it, the selection is cleared (\<open>selectedRep\<close> becomes \<open>None\<close>) and
  the rep list is unchanged.
\<close>

theorem update_subtask_clears_stale_selection:
  assumes "selectedRep s = Some sel"
    and "rep_id sel = repId"
    and "\<forall>r\<in>set (reps s). rep_id r \<noteq> repId"
  shows "selectedRep (appReducer e s (UPDATE_SUBTASK repId sid tid c)) = None
       \<and> reps (appReducer e s (UPDATE_SUBTASK repId sid tid c)) = reps s"
proof -
  have same: "reps (appReducer e s (UPDATE_SUBTASK repId sid tid c)) = reps s"
    using assms(3) by (rule reps_update_subtask_unknown)
  have "find (\<lambda>r. rep_id r = repId) (reps s) = None"
    using assms(3) by (simp add: find_None_set)
  then have "selectedRep (appReducer e s (UPDATE_SUBTASK repId sid tid c)) = None"
    using assms(1,2) by (simp add: selectedRep_update_subtask same)
  with same show ?thesis by simp
qed

theorem update_subtask_clears_stale_selection_witness:
  "selectedRep ex_stale_state = Some (ex_rep \<lparr> rep_id := ''gone'' \<rparr>)
   \<and> list_all (\<lambda>r. rep_id r \<noteq> ''gone'') (reps ex_stale_state)
   \<and> selectedRep (appReducer ex_env ex_stale_state (UPDATE_SUBTASK ''gone'' 1 ''t1'' True)) = None
   \<and> reps (appReducer ex_env ex_stale_state (UPDATE_SUBTASK ''gone'' 1 ''t1'' True)) = [ex_rep]"
proof -
  have h1: "selectedRep ex_stale_state = Some (ex_rep \<lparr> rep_id := ''gone'' \<rparr>)"
    by (simp add: ex_stale_state_def)
  have h2: "rep_id (ex_rep \<lparr> rep_id := ''gone'' \<rparr>) = ''gone''" by simp
  have h3: "\<forall>r\<in>set (reps ex_stale_state). rep_id r \<noteq> ''gone''"
    by (simp add: ex_stale_state_def ex_defs)
  show ?thesis
    using h1 h3 update_subtask_clears_stale_selection [OF h1 h2 h3, of ex_env 1 "''t1''" True]
    by (simp add: list_all_iff ex_stale_state_def ex_state_def)
qed

section \<open>The audit log\<close>

text \<open>
  Claim C9, as stated, says that the new log record has a freshly generated identifier.
  The reducer takes the identifier from the clock (\<^verbatim>\<open>id: Date.now()\<close>) and compares it
  with nothing: below, two \<^verbatim>\<open>ADD_AUDIT_LOG\<close> dispatches at the same clock reading leave two
  log entries with the same identifier, so the identifier of the second is not new.
\<close>

theorem add_audit_log_id_not_fresh_counterexample:
  "map log_id (auditLogs (appReducer ex_env ex_state (ADD_AUDIT_LOG ex_log_payload))) = [1000]
   \<and> map log_id
       (auditLogs (appReducer ex_env
          (appReducer ex_env ex_state (ADD_AUDIT_LOG ex_log_payload))
          (ADD_AUDIT_LOG ex_log_payload))) = [1000, 1000]"
  by (simp add: appReducer.simps ex_defs Let_def)

text \<open>
  Claim C9, amended. \<^verbatim>\<open>ADD_AUDIT_LOG\<close> builds a log record from the payload, with the clock
  reading of the dispatch as its identifier (\<^verbatim>\<open>Date.now()\<close>) and as its timestamp, and puts
  it at index 0 of the log list. The identifier is one already in the log exactly when an
  entry of the log carries that clock reading as its identifier. The list grows by exactly
  one, and the entries it had follow unchanged, in their order. No action of the reducer
  changes or removes an entry: the log list after any dispatch ends with the log list
  before it.
\<close>

theorem add_audit_log_prepends:
  "auditLogs (appReducer e s (ADD_AUDIT_LOG p)) =
     \<lparr> log_id = now e, log_timestamp = now e, log_fields = p \<rparr> # auditLogs s
   \<and> auditLogs (appReducer e s (ADD_AUDIT_LOG p)) ! 0 =
       \<lparr> log_id = now e, log_timestamp = now e, log_fields = p \<rparr>
   \<and> (log_id (auditLogs (appReducer e s (ADD_AUDIT_LOG p)) ! 0) \<in> log_id ` set (auditLogs s))
       = (now e \<in> log_id ` set (auditLogs s))
   \<and> length (auditLogs (appReducer e s (ADD_AUDIT_LOG p))) = length (auditLogs s) + 1
   \<and> (\<forall>k<length (auditLogs s).
        auditLogs (appReducer e s (ADD_AUDIT_LOG p)) ! (k + 1) = auditLogs s ! k)
   \<and> (\<forall>e' a. \<exists>new. auditLogs (appReducer e' s a) = new @ auditLogs s)"
proof -
  have "\<exists>new. auditLogs (appReducer e' s a) = new @ auditLogs s" for e' a
    by (cases a) (simp_all add: auditLogs_other_actions)
  then show ?thesis
    by (simp add: auditLogs_other_actions)
qed

theorem add_audit_log_prepends_witness:
  "auditLogs (appReducer ex_env2
      (appReducer ex_env ex_state (ADD_AUDIT_LOG ex_log_payload)) (ADD_AUDIT_LOG ex_log_payload)) =
     [\<lparr> log_id = 2000, log_timestamp = 2000, log_fields = ex_log_payload \<rparr>,
      \<lparr> log_id = 1000, log_timestamp = 1000, log_fields = ex_log_payload \<rparr>]"
  using add_audit_log_prepends [of ex_env ex_state ex_log_payload]
    add_audit_log_prepends
      [of ex_env2 "appReducer ex_env ex_state (ADD_AUDIT_LOG ex_log_payload)" ex_log_payload]
  by (simp add: ex_defs)

section \<open>Building a milestone from the catalog\<close>

text \<open>
  Claim C8. For a step id with no catalog entry \<^verbatim>\<open>createMilestoneFromStep\<close> returns
  \<open>None\<close> (the source's \<^verbatim>\<open>null\<close>, no error). For a step id with a catalog entry it returns
  a milestone with that step id, the title of the (first) catalog entry of the step, and
  one subtask per subtask definition of the entry, in catalog order, with the same task
  id and description; the milestone and every subtask are not completed.
\<close>

theorem createMilestoneFromStep_result:
  "((\<forall>st\<in>set cat. s_stepId st \<noteq> sid) \<longrightarrow> createMilestoneFromStep cat sid = None)
   \<and> ((\<exists>st\<in>set cat. s_stepId st = sid) \<longrightarrow>
        (\<exists>step m. getStepById cat sid = Some step \<and> step \<in> set cat \<and> s_stepId step = sid
           \<and> createMilestoneFromStep cat sid = Some m
           \<and> stepId m = sid \<and> title m = s_title step \<and> \<not> m_completed m
           \<and> length (sub_tasks m) = length (s_subTasks step)
           \<and> map taskId (sub_tasks m) = map d_taskId (s_subTasks step)
           \<and> map description (sub_tasks m) = map d_description (s_subTasks step)
           \<and> (\<forall>t\<in>set (sub_tasks m). \<not> t_completed t)))"
proof (intro conjI impI)
  assume "\<forall>st\<in>set cat. s_stepId st \<noteq> sid"
  then have "getStepById cat sid = None" by (simp add: getStepById_None)
  then show "createMilestoneFromStep cat sid = None"
    by (simp add: createMilestoneFromStep_def)
next
  assume "\<exists>st\<in>set cat. s_stepId st = sid"
  then have "getStepById cat sid \<noteq> None" by (simp add: getStepById_None)
  then obtain step where step: "getStepById cat sid = Some step" by blast
  then have mem: "step \<in> set cat \<and> s_stepId step = sid"
    unfolding getStepById_def by (rule find_Some_set)
  from step mem show "\<exists>step m. getStepById cat sid = Some step \<and> step \<in> set cat \<and> s_stepId step = sid
           \<and> createMilestoneFromStep cat sid = Some m
           \<and> stepId m = sid \<and> title m = s_title step \<and> \<not> m_completed m
           \<and> length (sub_tasks m) = length (s_subTasks step)
           \<and> map taskId (sub_tasks m) = map d_taskId (s_subTasks step)
           \<and> map description (sub_tasks m) = map d_description (s_subTasks step)
           \<and> (\<forall>t\<in>set (sub_tasks m). \<not> t_completed t)"
    by (auto simp: createMilestoneFromStep_def sub_tasks_def comp_def)
qed

theorem createMilestoneFromStep_result_witness:
  "createMilestoneFromStep ex_catalog 7 = None
   \<and> createMilestoneFromStep ex_catalog 1 =
       Some \<lparr> stepId = 1, title = ''Orientation'', m_completed = False,
              m_completedAt = None, m_completedBy = None,
              subTasks = Some
                [\<lparr> taskId = ''1-1'', description = ''Meet the trainer'', t_completed = False,
                   t_completedAt = None, t_completedBy = None \<rparr>,
                 \<lparr> taskId = ''1-2'', description = ''Sign the forms'', t_completed = False,
                   t_completedAt = None, t_completedBy = None \<rparr>] \<rparr>"
proof -
  have h1: "\<forall>st\<in>set ex_catalog. s_stepId st \<noteq> 7" by (simp add: ex_catalog_def)
  have h2: "\<exists>st\<in>set ex_catalog. s_stepId st = 1" by (simp add: ex_catalog_def)
  have none: "createMilestoneFromStep ex_catalog 7 = None"
    using h1 createMilestoneFromStep_result [of ex_catalog 7] by blast
  have some: "\<exists>m. createMilestoneFromStep ex_catalog 1 = Some m \<and> title m = ''Orientation''"
    using h2 createMilestoneFromStep_result [of ex_catalog 1]
    by (auto simp: getStepById_def ex_catalog_def)
  have "createMilestoneFromStep ex_catalog 1 =
       Some \<lparr> stepId = 1, title = ''Orientation'', m_completed = False,
              m_completedAt = None, m_completedBy = None,
              subTasks = Some
                [\<lparr> taskId = ''1-1'', description = ''Meet the trainer'', t_completed = False,
                   t_completedAt = None, t_completedBy = None \<rparr>,
                 \<lparr> taskId = ''1-2'', description = ''Sign the forms'', t_completed = False,
                   t_completedAt = None, t_completedBy = None \<rparr>] \<rparr>"
    by (simp add: createMilestoneFromStep_def getStepById_def ex_catalog_def)
  with none show ?thesis by simp
qed

end
